theory Spec2Isabelle
  imports Complex_Main "HOL-Library.AList"
begin

section \<open>Exceptions\<close>

text \<open>
  The exceptions the two modules raise or pass on. \<open>UserException\<close> stands for any
  other instance of Python's \<open>Exception\<close> class, \<open>BaseOnly\<close> for an instance
  of \<open>BaseException\<close> that is not an \<open>Exception\<close> (\<open>KeyboardInterrupt\<close>,
  \<open>SystemExit\<close>, \<open>GeneratorExit\<close>); the string is the class name.
\<close>

datatype exn =
    AppInvokeQuotaExceededError string
  | AttributeError
  | LookupError
  | StopIteration
  | TypeError
  | UserException string
  | BaseOnly string

fun isinstance_Exception :: "exn \<Rightarrow> bool" where
  "isinstance_Exception (BaseOnly _) = False"
| "isinstance_Exception _ = True"

section \<open>contexts/wrapper.py: RecyclableContextVar\<close>

text \<open>
  One execution context, seen from one \<open>RecyclableContextVar\<close>. Each of the three
  \<open>ContextVar\<close>s is \<open>None\<close> while it was never set in the context:
  \<^item> \<open>thread_recycles\<close> is the class-level \<open>_thread_recycles\<close>, created without a
    default and always read with \<open>get(0)\<close>;
  \<^item> \<open>updates\<close> is the instance's \<open>_updates\<close>, created with \<open>default=0\<close>;
  \<^item> \<open>context_var\<close> is the wrapped variable, whose \<open>get()\<close> raises
    \<open>LookupError\<close> while it is unset.
  Python's integers are unbounded, hence \<open>int\<close>.
\<close>

record 'a slot_context =
  thread_recycles :: "int option"
  updates :: "int option"
  context_var :: "'a option"

definition fresh_context :: "'a slot_context" where
  "fresh_context = \<lparr>thread_recycles = None, updates = None, context_var = None\<rparr>"

text \<open>\<open>cls._thread_recycles.get(0)\<close> and \<open>self._updates.get()\<close>.\<close>

definition thread_recycles_get :: "'a slot_context \<Rightarrow> int" where
  "thread_recycles_get s = (case thread_recycles s of None \<Rightarrow> 0 | Some r \<Rightarrow> r)"

definition updates_get :: "'a slot_context \<Rightarrow> int" where
  "updates_get s = (case updates s of None \<Rightarrow> 0 | Some u \<Rightarrow> u)"

text \<open>
  \<open>increment_thread_recycles\<close>: the \<open>except LookupError\<close> branch is the first call in a
  context, which stores 0.
\<close>

definition increment_thread_recycles :: "'a slot_context \<Rightarrow> 'a slot_context" where
  "increment_thread_recycles s =
     (case thread_recycles s of
        Some recycles \<Rightarrow> s\<lparr>thread_recycles := Some (recycles + 1)\<rparr>
      | None \<Rightarrow> s\<lparr>thread_recycles := Some 0\<rparr>)"

text \<open>
  \<open>get(default)\<close>; the argument is \<open>None\<close> when the caller gave no default (the
  \<open>HiddenValue\<close> sentinel). The comparison that decides the result uses the two
  values read at the start, not the normalised counter.
\<close>

definition get :: "'a option \<Rightarrow> 'a slot_context \<Rightarrow> (exn + 'a) \<times> 'a slot_context" where
  "get dflt s =
     (let recycles = thread_recycles_get s;
          self_updates = updates_get s;
          s1 = (if recycles > self_updates then s\<lparr>updates := Some recycles\<rparr> else s)
      in if recycles < self_updates then
           (case context_var s1 of None \<Rightarrow> (Inl LookupError, s1) | Some v \<Rightarrow> (Inr v, s1))
         else
           (case dflt of None \<Rightarrow> (Inl LookupError, s1) | Some d \<Rightarrow> (Inr d, s1)))"

definition set_value :: "'a \<Rightarrow> 'a slot_context \<Rightarrow> 'a slot_context" where
  "set_value v s =
     (let recycles = thread_recycles_get s;
          self_updates = updates_get s;
          s1 = (if recycles > self_updates then s\<lparr>updates := Some recycles\<rparr> else s);
          s2 = (if updates_get s1 = thread_recycles_get s1
                then s1\<lparr>updates := Some (updates_get s1 + 1)\<rparr> else s1)
      in s2\<lparr>context_var := Some v\<rparr>)"

text \<open>Sequences of calls on one slot in one context, starting from the fresh context.\<close>

datatype 'a slot_op = Get "'a option" | Set 'a | Increment

fun slot_step :: "'a slot_context \<Rightarrow> 'a slot_op \<Rightarrow> 'a slot_context" where
  "slot_step s (Get d) = snd (get d s)"
| "slot_step s (Set v) = set_value v s"
| "slot_step s Increment = increment_thread_recycles s"

definition slot_run :: "'a slot_op list \<Rightarrow> 'a slot_context" where
  "slot_run ops = foldl slot_step fresh_context ops"



fun history_step :: "bool \<times> bool \<Rightarrow> 'a slot_op \<Rightarrow> bool \<times> bool" where
  "history_step (seen, b) (Get d) = (seen, b)"
| "history_step (seen, b) (Set v) = (seen, True)"
| "history_step (seen, b) Increment = (True, if seen then False else b)"



text \<open>
  The invariant the proofs carry along a call sequence: \<open>h\<close> is the pair of
  \<open>history_step\<close>. \<open>last_set\<close> is the value of the most recent \<open>set\<close>.
\<close>

definition slot_inv :: "'a slot_context \<Rightarrow> bool \<times> bool \<Rightarrow> bool" where
  "slot_inv s h =
     (fst h = (thread_recycles s \<noteq> None)
      \<and> updates_get s \<le> thread_recycles_get s + 1
      \<and> snd h = (updates_get s = thread_recycles_get s + 1)
      \<and> (snd h \<longrightarrow> context_var s \<noteq> None))"



section \<open>core/app/features/rate\_limiting/rate\_limit.py\<close>

subsection \<open>The shared store, the clock and the id source\<close>

text \<open>
  \<open>redis_client\<close> is the store. Its string keys hold the integer that \<open>setex\<close> wrote
  and \<open>int(...decode(...))\<close> reads back; a hash is the list of its (field, value)
  pairs in the order \<open>hgetall\<close> returns them, the value being the float that
  \<open>str(time.time())\<close> wrote and \<open>float(...)\<close> reads back. A key exists when it holds
  a string or a hash with at least one field (the store drops a hash with its last
  field). Every command is appended to \<open>redis_log\<close>. The store answers every command;
  expiry is the store's own later behaviour and is not simulated, the commands that set
  it are in the log.

  \<open>time.time()\<close> returns \<open>clock\<close> at the number of readings taken so far, so each call
  may see another instant; floats are taken as reals. \<open>uuid.uuid4()\<close> returns
  \<open>uuid4\<close> at the number of ids drawn so far.

  \<open>events\<close> only observes: it records each call of \<open>RateLimit.exit\<close> and each call
  of the wrapped generator's \<open>__next__\<close> and \<open>close\<close>. No function of the program
  reads it.
\<close>

type_synonym key = string

datatype redis_cmd =
    EXISTS key
  | SETEX key nat int
  | GET key
  | EXPIRE key nat
  | HGETALL key
  | HLEN key
  | HSET key string real
  | HDEL key "string list"

datatype event = ExitCall string | GeneratorNext | GeneratorClose

record world =
  strings :: "key \<Rightarrow> int option"
  hashes :: "key \<Rightarrow> (string \<times> real) list"
  redis_log :: "redis_cmd list"
  events :: "event list"
  clock :: "nat \<Rightarrow> real"
  ticks :: nat
  uuid4 :: "nat \<Rightarrow> string"
  uuids :: nat

definition redis_exists :: "key \<Rightarrow> world \<Rightarrow> bool \<times> world" where
  "redis_exists k w =
     (strings w k \<noteq> None \<or> hashes w k \<noteq> [], w\<lparr>redis_log := redis_log w @ [EXISTS k]\<rparr>)"

definition redis_setex :: "key \<Rightarrow> nat \<Rightarrow> int \<Rightarrow> world \<Rightarrow> world" where
  "redis_setex k secs v w =
     w\<lparr>strings := (strings w)(k \<mapsto> v), hashes := (hashes w)(k := []),
       redis_log := redis_log w @ [SETEX k secs v]\<rparr>"

definition redis_get :: "key \<Rightarrow> world \<Rightarrow> int option \<times> world" where
  "redis_get k w = (strings w k, w\<lparr>redis_log := redis_log w @ [GET k]\<rparr>)"

definition redis_expire :: "key \<Rightarrow> nat \<Rightarrow> world \<Rightarrow> world" where
  "redis_expire k secs w = w\<lparr>redis_log := redis_log w @ [EXPIRE k secs]\<rparr>"

definition redis_hgetall :: "key \<Rightarrow> world \<Rightarrow> (string \<times> real) list \<times> world" where
  "redis_hgetall k w = (hashes w k, w\<lparr>redis_log := redis_log w @ [HGETALL k]\<rparr>)"

definition redis_hlen :: "key \<Rightarrow> world \<Rightarrow> nat \<times> world" where
  "redis_hlen k w = (length (hashes w k), w\<lparr>redis_log := redis_log w @ [HLEN k]\<rparr>)"

definition redis_hset :: "key \<Rightarrow> string \<Rightarrow> real \<Rightarrow> world \<Rightarrow> world" where
  "redis_hset k f v w =
     w\<lparr>hashes := (hashes w)(k := AList.update f v (hashes w k)),
       redis_log := redis_log w @ [HSET k f v]\<rparr>"

definition redis_hdel :: "key \<Rightarrow> string list \<Rightarrow> world \<Rightarrow> world" where
  "redis_hdel k fs w =
     w\<lparr>hashes := (hashes w)(k := filter (\<lambda>(f, v). f \<notin> set fs) (hashes w k)),
       redis_log := redis_log w @ [HDEL k fs]\<rparr>"

definition time_time :: "world \<Rightarrow> real \<times> world" where
  "time_time w = (clock w (ticks w), w\<lparr>ticks := Suc (ticks w)\<rparr>)"

definition gen_request_key :: "world \<Rightarrow> string \<times> world" where
  "gen_request_key w = (uuid4 w (uuids w), w\<lparr>uuids := Suc (uuids w)\<rparr>)"

subsection \<open>Python's \<open>str\<close> of an integer\<close>

definition digit_char :: "nat \<Rightarrow> char" where
  "digit_char d = ''0123456789'' ! d"

function str_nat :: "nat \<Rightarrow> string" where
  "str_nat n = (if n < 10 then [digit_char n] else str_nat (n div 10) @ [digit_char (n mod 10)])"
  by pat_completeness auto
termination
  by (relation "measure (\<lambda>n. n)") auto

definition str_int :: "int \<Rightarrow> string" where
  "str_int i = (if i < 0 then CHR ''-'' # str_nat (nat (- i)) else str_nat (nat i))"

subsection \<open>RateLimit\<close>

text \<open>
  An initialised limiter object (the constructor and the class-level registry of
  instances are not modelled). \<open>last_recalculate_time\<close> is \<open>None\<close> for
  \<open>float("-inf")\<close>. The two keys are the class's format strings filled with
  \<open>client_id\<close>.
\<close>

record rate_limit =
  client_id :: string
  max_active_requests :: int
  last_recalculate_time :: "real option"

definition UNLIMITED_REQUEST_ID :: string where
  "UNLIMITED_REQUEST_ID = ''unlimited_request_id''"

definition REQUEST_MAX_ALIVE_TIME :: real where
  "REQUEST_MAX_ALIVE_TIME = 10 * 60"

definition ACTIVE_REQUESTS_COUNT_FLUSH_INTERVAL :: real where
  "ACTIVE_REQUESTS_COUNT_FLUSH_INTERVAL = 5 * 60"

definition one_day :: nat where
  "one_day = 86400"

definition max_active_requests_key :: "rate_limit \<Rightarrow> key" where
  "max_active_requests_key rl = ''dify:rate_limit:'' @ client_id rl @ '':max_active_requests''"

definition active_requests_key :: "rate_limit \<Rightarrow> key" where
  "active_requests_key rl = ''dify:rate_limit:'' @ client_id rl @ '':active_requests''"

definition disabled :: "rate_limit \<Rightarrow> bool" where
  "disabled rl = (max_active_requests rl \<le> 0)"

text \<open>
  \<open>flush_cache\<close>, first half: the record of the limit. \<open>use_local_value or not
  exists(...)\<close> does not ask the store when \<open>use_local_value\<close> is set. \<open>get\<close>
  returning nothing makes \<open>.decode\<close> raise \<open>AttributeError\<close>.
\<close>

definition flush_max_active_requests ::
  "bool \<Rightarrow> rate_limit \<Rightarrow> world \<Rightarrow> (exn + unit) \<times> rate_limit \<times> world" where
  "flush_max_active_requests use_local_value rl w =
     (let (write_local, w1) =
            (if use_local_value then (True, w)
             else (let (ex, w') = redis_exists (max_active_requests_key rl) w in (\<not> ex, w')))
      in if write_local then
           (Inr (), rl,
            redis_setex (max_active_requests_key rl) one_day (max_active_requests rl) w1)
         else
           (let (v, w2) = redis_get (max_active_requests_key rl) w1
            in case v of
                 None \<Rightarrow> (Inl AttributeError, rl, w2)
               | Some n \<Rightarrow>
                   (Inr (), rl\<lparr>max_active_requests := n\<rparr>,
                    redis_expire (max_active_requests_key rl) one_day w2)))"

text \<open>
  The list comprehension \<open>timeout_requests\<close>: one clock reading for each field, in the
  order of \<open>request_details.items()\<close>.
\<close>

fun timeout_requests :: "(string \<times> real) list \<Rightarrow> world \<Rightarrow> string list \<times> world" where
  "timeout_requests [] w = ([], w)"
| "timeout_requests ((k, v) # kvs) w =
     (let (now, w1) = time_time w;
          (ks, w2) = timeout_requests kvs w1
      in (if now - v > REQUEST_MAX_ALIVE_TIME then k # ks else ks, w2))"

text \<open>\<open>flush_cache\<close>, second half: the requests in transit.\<close>

definition flush_active_requests :: "rate_limit \<Rightarrow> world \<Rightarrow> world" where
  "flush_active_requests rl w =
     (let (ex, w1) = redis_exists (active_requests_key rl) w
      in if \<not> ex then w1
         else
           (let (request_details, w2) = redis_hgetall (active_requests_key rl) w1;
                w3 = redis_expire (active_requests_key rl) one_day w2;
                (ks, w4) = timeout_requests request_details w3
            in if ks \<noteq> [] then redis_hdel (active_requests_key rl) ks w4 else w4))"

definition flush_cache ::
  "bool \<Rightarrow> rate_limit \<Rightarrow> world \<Rightarrow> (exn + unit) \<times> rate_limit \<times> world" where
  "flush_cache use_local_value rl w =
     (if disabled rl then (Inr (), rl, w)
      else
        (let (now, w1) = time_time w;
             rl1 = rl\<lparr>last_recalculate_time := Some now\<rparr>;
             (r, rl2, w2) = flush_max_active_requests use_local_value rl1 w1
         in case r of
              Inl e \<Rightarrow> (Inl e, rl2, w2)
            | Inr u \<Rightarrow> (Inr (), rl2, flush_active_requests rl2 w2)))"

definition quota_message :: "string \<Rightarrow> int \<Rightarrow> string" where
  "quota_message cid limit =
     ''Too many requests. Please try again later. The current maximum concurrent requests allowed for ''
     @ cid @ '' is '' @ str_int limit @ ''.''"

text \<open>
  \<open>enter(request_id)\<close>. The result is the returned id or the raised exception, with
  the limiter and the world as the call leaves them. \<open>not request_id\<close> holds for
  \<open>None\<close> and for the empty string.
\<close>

definition flush_due :: "rate_limit \<Rightarrow> real \<Rightarrow> bool" where
  "flush_due rl now =
     (case last_recalculate_time rl of
        None \<Rightarrow> True
      | Some t \<Rightarrow> now - t > ACTIVE_REQUESTS_COUNT_FLUSH_INTERVAL)"

definition enter ::
  "string option \<Rightarrow> rate_limit \<Rightarrow> world \<Rightarrow> (exn + string) \<times> rate_limit \<times> world" where
  "enter request_id rl w =
     (if disabled rl then (Inr UNLIMITED_REQUEST_ID, rl, w)
      else
        (let (now, w1) = time_time w;
             (r, rl1, w2) = (if flush_due rl now then flush_cache False rl w1 else (Inr (), rl, w1))
         in case r of
              Inl e \<Rightarrow> (Inl e, rl1, w2)
            | Inr u \<Rightarrow>
               (let (rid, w3) =
                      (case request_id of
                         None \<Rightarrow> gen_request_key w2
                       | Some i \<Rightarrow> (if i = [] then gen_request_key w2 else (i, w2)));
                    (active_requests_count, w4) = redis_hlen (active_requests_key rl1) w3
                in if int active_requests_count \<ge> max_active_requests rl1 then
                     (Inl (AppInvokeQuotaExceededError
                             (quota_message (client_id rl1) (max_active_requests rl1))),
                      rl1, w4)
                   else
                     (let (stamp, w5) = time_time w4
                      in (Inr rid, rl1, redis_hset (active_requests_key rl1) rid stamp w5)))))"

definition exit :: "string \<Rightarrow> rate_limit \<Rightarrow> world \<Rightarrow> world" where
  "exit request_id rl w =
     (let w1 = w\<lparr>events := events w @ [ExitCall request_id]\<rparr>
      in if request_id = UNLIMITED_REQUEST_ID then w1
         else redis_hdel (active_requests_key rl) [request_id] w1)"


subsection \<open>The wrapped generator\<close>

text \<open>
  What \<open>RateLimitGenerator\<close> wraps, seen through the iterator protocol: \<open>body\<close> is
  what the following \<open>next\<close> calls will do, in order, each either yielding a string or
  raising; an empty \<open>body\<close> raises \<open>StopIteration\<close>. A Python generator is the case
  where nothing follows a \<open>Raise\<close>. \<open>has_close\<close> is
  \<open>hasattr(generator, "close")\<close>; the hook finishes the generator and is taken to
  return normally. \<open>self.generator\<close> may be \<open>None\<close>, on which \<open>next\<close> raises
  \<open>TypeError\<close>.
\<close>

datatype gen_item = Yield string | Raise exn

record generator =
  body :: "gen_item list"
  has_close :: bool

definition generator_next :: "generator \<Rightarrow> world \<Rightarrow> (exn + string) \<times> generator \<times> world" where
  "generator_next gen w =
     (let w1 = w\<lparr>events := events w @ [GeneratorNext]\<rparr>
      in case body gen of
           [] \<Rightarrow> (Inl StopIteration, gen, w1)
         | Yield v # rest \<Rightarrow> (Inr v, gen\<lparr>body := rest\<rparr>, w1)
         | Raise e # rest \<Rightarrow> (Inl e, gen\<lparr>body := rest\<rparr>, w1))"

definition generator_close :: "generator \<Rightarrow> world \<Rightarrow> generator \<times> world" where
  "generator_close gen w = (gen\<lparr>body := []\<rparr>, w\<lparr>events := events w @ [GeneratorClose]\<rparr>)"

text \<open>The builtin \<open>next(self.generator)\<close>.\<close>

definition builtin_next ::
  "generator option \<Rightarrow> world \<Rightarrow> (exn + string) \<times> generator option \<times> world" where
  "builtin_next g w =
     (case g of
        None \<Rightarrow> (Inl TypeError, None, w)
      | Some gen \<Rightarrow> (let (r, gen', w') = generator_next gen w in (r, Some gen', w')))"

subsection \<open>RateLimitGenerator\<close>

text \<open>
  \<open>g_rate_limit\<close> is the limiter the wrapper refers to; \<open>exit\<close> reads only its key,
  which never changes after construction.
\<close>

record rate_limit_generator =
  g_rate_limit :: rate_limit
  g_generator :: "generator option"
  g_request_id :: string
  closed :: bool

definition close :: "rate_limit_generator \<Rightarrow> world \<Rightarrow> rate_limit_generator \<times> world" where
  "close g w =
     (if \<not> closed g then
        (let g1 = g\<lparr>closed := True\<rparr>;
             w1 = exit (g_request_id g1) (g_rate_limit g1) w
         in case g_generator g1 of
              None \<Rightarrow> (g1, w1)
            | Some gen \<Rightarrow>
                (if has_close gen then
                   (let (gen', w2) = generator_close gen w1 in (g1\<lparr>g_generator := Some gen'\<rparr>, w2))
                 else (g1, w1)))
      else (g, w))"

text \<open>
  \<open>__next__\<close>: \<open>except Exception\<close> catches the instances of \<open>Exception\<close> only, runs
  \<open>close\<close> and raises the same exception again; any other exception passes through
  the \<open>try\<close> untouched.
\<close>

definition next_item ::
  "rate_limit_generator \<Rightarrow> world \<Rightarrow> (exn + string) \<times> rate_limit_generator \<times> world" where
  "next_item g w =
     (if closed g then (Inl StopIteration, g, w)
      else
        (let (r, gen', w1) = builtin_next (g_generator g) w;
             g1 = g\<lparr>g_generator := gen'\<rparr>
         in case r of
              Inr v \<Rightarrow> (Inr v, g1, w1)
            | Inl e \<Rightarrow>
                (if isinstance_Exception e then
                   (let (g2, w2) = close g1 w1 in (Inl e, g2, w2))
                 else (Inl e, g1, w1))))"

text \<open>
  \<open>generate\<close>: the output of the application is a mapping (blocking mode) or something
  to iterate over.
\<close>

datatype 'v app_output = OutMapping "string \<Rightarrow> 'v option" | OutGenerator "generator option"

datatype 'v generated = Unwrapped "string \<Rightarrow> 'v option" | Wrapped rate_limit_generator

definition generate :: "'v app_output \<Rightarrow> string \<Rightarrow> rate_limit \<Rightarrow> 'v generated" where
  "generate output request_id rl =
     (case output of
        OutMapping m \<Rightarrow> Unwrapped m
      | OutGenerator g \<Rightarrow>
          Wrapped \<lparr>g_rate_limit = rl, g_generator = g, g_request_id = request_id, closed = False\<rparr>)"

text \<open>Sequences of calls on one wrapper.\<close>

datatype gen_call = Next | Close

fun call_step :: "rate_limit_generator \<times> world \<Rightarrow> gen_call \<Rightarrow> rate_limit_generator \<times> world" where
  "call_step (g, w) Next = snd (next_item g w)"
| "call_step (g, w) Close = close g w"

definition run_calls ::
  "gen_call list \<Rightarrow> rate_limit_generator \<times> world \<Rightarrow> rate_limit_generator \<times> world" where
  "run_calls calls c = foldl call_step c calls"

text \<open>The events a run added to those of the world it started in.\<close>

definition new_events :: "world \<Rightarrow> world \<Rightarrow> event list" where
  "new_events w0 w = drop (length (events w0)) (events w)"

fun is_exit_call :: "event \<Rightarrow> bool" where
  "is_exit_call (ExitCall i) = True"
| "is_exit_call _ = False"

subsection \<open>Two store round trips of \<open>enter\<close>\<close>

text \<open>
  \<open>enter\<close> cut between the admission check (everything up to the comparison of
  \<open>hlen\<close> with the limit) and the registration (\<open>hset\<close> and the return). A controller
  is one process inside a call of \<open>enter\<close>, with its own limiter object; the
  controllers share the world, and a schedule names the controller that takes the next
  step.
\<close>

datatype enter_stage = Finished "exn + string" | Admitted string

definition enter_admission ::
  "string option \<Rightarrow> rate_limit \<Rightarrow> world \<Rightarrow> enter_stage \<times> rate_limit \<times> world" where
  "enter_admission request_id rl w =
     (if disabled rl then (Finished (Inr UNLIMITED_REQUEST_ID), rl, w)
      else
        (let (now, w1) = time_time w;
             (r, rl1, w2) = (if flush_due rl now then flush_cache False rl w1 else (Inr (), rl, w1))
         in case r of
              Inl e \<Rightarrow> (Finished (Inl e), rl1, w2)
            | Inr u \<Rightarrow>
               (let (rid, w3) =
                      (case request_id of
                         None \<Rightarrow> gen_request_key w2
                       | Some i \<Rightarrow> (if i = [] then gen_request_key w2 else (i, w2)));
                    (active_requests_count, w4) = redis_hlen (active_requests_key rl1) w3
                in if int active_requests_count \<ge> max_active_requests rl1 then
                     (Finished (Inl (AppInvokeQuotaExceededError
                             (quota_message (client_id rl1) (max_active_requests rl1)))),
                      rl1, w4)
                   else (Admitted rid, rl1, w4))))"

definition enter_registration ::
  "string \<Rightarrow> rate_limit \<Rightarrow> world \<Rightarrow> (exn + string) \<times> rate_limit \<times> world" where
  "enter_registration rid rl w =
     (let (stamp, w1) = time_time w
      in (Inr rid, rl, redis_hset (active_requests_key rl) rid stamp w1))"

datatype controller =
    Calling "string option" rate_limit
  | Registering string rate_limit
  | Returned "exn + string" rate_limit

fun controller_step :: "controller \<Rightarrow> world \<Rightarrow> controller \<times> world" where
  "controller_step (Calling request_id rl) w =
     (case enter_admission request_id rl w of
        (Finished r, rl', w') \<Rightarrow> (Returned r rl', w')
      | (Admitted rid, rl', w') \<Rightarrow> (Registering rid rl', w'))"
| "controller_step (Registering rid rl) w =
     (case enter_registration rid rl w of (r, rl', w') \<Rightarrow> (Returned r rl', w'))"
| "controller_step (Returned r rl) w = (Returned r rl, w)"

fun run_schedule :: "nat list \<Rightarrow> controller list \<times> world \<Rightarrow> controller list \<times> world" where
  "run_schedule [] c = c"
| "run_schedule (i # sched) (cs, w) =
     (if i < length cs then
        (let (c', w') = controller_step (cs ! i) w in run_schedule sched (cs[i := c'], w'))
      else run_schedule sched (cs, w))"

fun admitted :: "controller \<Rightarrow> bool" where
  "admitted (Returned (Inr i) rl) = True"
| "admitted _ = False"


subsection \<open>Reference functions and example states\<close>




text \<open>
  The limiter of client \<open>appA\<close> with limit \<open>n\<close>, last flushed at \<open>t\<close>, and a world
  whose only content is that client's record of the limit (\<open>stored\<close>) and the hash
  \<open>h\<close> of its active requests; its clock reads 10000 and advances by one second at
  every reading.
\<close>

definition example_limiter :: "int \<Rightarrow> real \<Rightarrow> rate_limit" where
  "example_limiter n t =
     \<lparr>client_id = ''appA'', max_active_requests = n, last_recalculate_time = Some t\<rparr>"

definition example_world :: "int option \<Rightarrow> (string \<times> real) list \<Rightarrow> world" where
  "example_world stored h =
     \<lparr>strings = (\<lambda>k. if k = ''dify:rate_limit:appA:max_active_requests'' then stored else None),
      hashes = (\<lambda>k. if k = ''dify:rate_limit:appA:active_requests'' then h else []),
      redis_log = [], events = [],
      clock = (\<lambda>n. 10000 + real n), ticks = 0,
      uuid4 = (\<lambda>n. ''uuid-'' @ str_nat n), uuids = 0\<rparr>"

text \<open>
  \<open>cleanup_events\<close>: the calls the one-time cleanup of a wrapper makes, in order: the
  release, then the close hook of the wrapped generator when it has one.
  \<open>example_wrapper\<close>: an open wrapper for the ticket \<open>id1\<close> of client \<open>appA\<close>
  around a generator with the given body. \<open>run_inv\<close> is the invariant of a run of
  calls that started with the open wrapper \<open>g0\<close> in the world \<open>w0\<close>.
\<close>

definition cleanup_events :: "rate_limit_generator \<Rightarrow> event list" where
  "cleanup_events g =
     ExitCall (g_request_id g) #
     (case g_generator g of
        None \<Rightarrow> []
      | Some gen \<Rightarrow> (if has_close gen then [GeneratorClose] else []))"

definition example_wrapper :: "gen_item list \<Rightarrow> rate_limit_generator" where
  "example_wrapper items =
     \<lparr>g_rate_limit = example_limiter 2 9900,
      g_generator = Some \<lparr>body = items, has_close = True\<rparr>,
      g_request_id = ''id1'', closed = False\<rparr>"

definition run_inv :: "rate_limit_generator \<Rightarrow> world \<Rightarrow> rate_limit_generator \<times> world \<Rightarrow> bool" where
  "run_inv g0 w0 c =
     (g_request_id (fst c) = g_request_id g0
      \<and> (\<exists>evs. events (snd c) = events w0 @ evs
             \<and> filter is_exit_call evs =
                 (if closed (fst c) then [ExitCall (g_request_id g0)] else [])))"

section \<open>Properties of RecyclableContextVar\<close>


lemma slot_run_snoc: "slot_run (ops @ [op]) = slot_step (slot_run ops) op"
  by (simp add: slot_run_def)

lemma slot_inv_step: "slot_inv s h \<Longrightarrow> slot_inv (slot_step s op) (history_step h op)"
  by (cases op; cases h)
     (auto simp: slot_inv_def get_def set_value_def increment_thread_recycles_def
        thread_recycles_get_def updates_get_def Let_def split: option.splits if_splits)

lemma slot_inv_run: "slot_inv (slot_run ops) (foldl history_step (False, False) ops)"
proof (induction ops rule: rev_induct)
  case Nil
  show ?case
    by (simp add: slot_run_def slot_inv_def fresh_context_def thread_recycles_get_def
          updates_get_def)
next
  case (snoc op ops)
  then show ?case
    using slot_inv_step by (simp add: slot_run_snoc)
qed




lemma updates_bound_run: "updates_get (slot_run ops) \<le> thread_recycles_get (slot_run ops) + 1"
  using slot_inv_run [of ops] by (simp add: slot_inv_def)











text \<open>
  The first call of \<open>increment_thread_recycles\<close> in a context stores 0, which is what
  every read of the counter assumed before: it does not advance the generation.
\<close>

lemma first_increment_no_advance:
  "thread_recycles s = None \<Longrightarrow>
     thread_recycles_get (increment_thread_recycles s) = thread_recycles_get s"
  by (simp add: increment_thread_recycles_def thread_recycles_get_def)

lemma later_increment_advances:
  "thread_recycles s \<noteq> None \<Longrightarrow>
     thread_recycles_get (increment_thread_recycles s) = thread_recycles_get s + 1"
  by (auto simp: increment_thread_recycles_def thread_recycles_get_def)




text \<open>
  C7, as stated: the update generation of a slot never exceeds the recycle generation
  at the end of an operation. It fails after the first \<open>set\<close>: the update generation
  is 1, the recycle generation 0.
\<close>

theorem updates_exceeds_recycles_after_set:
  "updates_get (slot_run [Set ''x'']) = 1 \<and> thread_recycles_get (slot_run [Set ''x'']) = 0
   \<and> \<not> updates_get (slot_run [Set ''x'']) \<le> thread_recycles_get (slot_run [Set ''x''])"
  by (simp add: slot_run_def fresh_context_def set_value_def thread_recycles_get_def
        updates_get_def)

text \<open>
  C7, amended: after every sequence of \<open>get\<close>, \<open>set\<close> and
  \<open>increment_thread_recycles\<close> calls, the update generation of the slot is at most
  the recycle generation plus one.
\<close>

theorem updates_le_recycles_plus_one:
  "updates_get (slot_run ops) \<le> thread_recycles_get (slot_run ops) + 1"
  by (rule updates_bound_run)





section \<open>Properties of RateLimit\<close>

text \<open>
  The two key patterns never give the same key, for any two clients: a string and a
  hash never meet under one key of the store.
\<close>

lemma keys_never_collide: "max_active_requests_key rl \<noteq> active_requests_key rl'"
proof
  assume "max_active_requests_key rl = active_requests_key rl'"
  then have "take 16 (rev (max_active_requests_key rl)) = take 16 (rev (active_requests_key rl'))"
    by simp
  then show False
    by (simp add: max_active_requests_key_def active_requests_key_def)
qed

subsection \<open>The scan of \<open>flush_cache\<close>\<close>









lemma flush_cache_disabled: "disabled rl \<Longrightarrow> flush_cache ulv rl w = (Inr (), rl, w)"
  by (simp add: flush_cache_def)



subsection \<open>\<open>enter\<close> and \<open>exit\<close>\<close>















text \<open>
  C10: for every mapping, \<open>generate\<close> returns the mapping itself and builds no
  wrapper, so nothing that could call \<open>exit\<close> for the ticket comes with the result;
  every other output is wrapped in an open \<open>RateLimitGenerator\<close> for the limiter and
  the request id, and only those are.
\<close>

theorem generate_wraps_only_generators:
  "generate (OutMapping m) request_id rl = Unwrapped m
   \<and> (\<forall>g. generate (OutMapping m) request_id rl \<noteq> Wrapped g)
   \<and> generate (OutGenerator gen) request_id rl =
       Wrapped \<lparr>g_rate_limit = rl, g_generator = gen, g_request_id = request_id, closed = False\<rparr>
   \<and> (\<exists>g. generate out request_id rl = Wrapped g) = (\<exists>gen. out = OutGenerator gen)"
  by (cases out) (simp_all add: generate_def)


section \<open>Properties of RateLimitGenerator\<close>

lemma close_closed: "closed g \<Longrightarrow> close g w = (g, w)"
  by (simp add: close_def)

lemma next_closed: "closed g \<Longrightarrow> next_item g w = (Inl StopIteration, g, w)"
  by (simp add: next_item_def)

lemma exit_events: "events (exit r rl w) = events w @ [ExitCall r]"
  by (simp add: exit_def redis_hdel_def Let_def)

lemma close_open:
  assumes "\<not> closed g"
  shows "closed (fst (close g w))"
    and "g_request_id (fst (close g w)) = g_request_id g"
    and "events (snd (close g w)) = events w @ cleanup_events g"
  using assms
  by (auto simp: close_def cleanup_events_def exit_events generator_close_def Let_def
      split: option.splits)

lemma builtin_next_events:
  "events (snd (snd (builtin_next go w))) =
     events w @ (case go of None \<Rightarrow> [] | Some gen \<Rightarrow> [GeneratorNext])"
  by (auto simp: builtin_next_def generator_next_def Let_def split: option.splits list.splits gen_item.splits)

lemma builtin_next_has_close:
  "(case fst (snd (builtin_next go w)) of None \<Rightarrow> None | Some gen \<Rightarrow> Some (has_close gen)) =
   (case go of None \<Rightarrow> None | Some gen \<Rightarrow> Some (has_close gen))"
  by (auto simp: builtin_next_def generator_next_def Let_def split: option.splits list.splits gen_item.splits)

lemma next_open:
  assumes "\<not> closed g"
  shows "fst (next_item g w) = fst (builtin_next (g_generator g) w)"
    and "g_request_id (fst (snd (next_item g w))) = g_request_id g"
    and "closed (fst (snd (next_item g w))) =
           (case fst (builtin_next (g_generator g) w) of Inl e \<Rightarrow> isinstance_Exception e | Inr v \<Rightarrow> False)"
    and "events (snd (snd (next_item g w))) =
           events w @ (case g_generator g of None \<Rightarrow> [] | Some gen \<Rightarrow> [GeneratorNext])
             @ (if closed (fst (snd (next_item g w))) then cleanup_events g else [])"
  using assms
  by (auto simp: next_item_def builtin_next_def generator_next_def close_def cleanup_events_def
      exit_events generator_close_def Let_def
      split: option.splits list.splits gen_item.splits sum.splits)


lemma exits_of_cleanup: "filter is_exit_call (cleanup_events g) = [ExitCall (g_request_id g)]"
  by (simp add: cleanup_events_def split: option.splits)

lemma call_step_closed: "closed g \<Longrightarrow> call_step (g, w) c = (g, w)"
  by (cases c) (simp_all add: next_closed close_closed)

lemma call_step_open:
  assumes "\<not> closed g"
  shows "g_request_id (fst (call_step (g, w) c)) = g_request_id g
       \<and> (\<exists>evs. events (snd (call_step (g, w) c)) = events w @ evs
             \<and> filter is_exit_call evs =
                 (if closed (fst (call_step (g, w) c)) then [ExitCall (g_request_id g)] else []))"
proof (cases c)
  case Next
  show ?thesis
    using next_open(2,4) [OF assms, of w]
    by (auto simp: Next exits_of_cleanup split: option.splits)
next
  case Close
  show ?thesis
    using close_open [OF assms, of w] by (simp add: Close exits_of_cleanup)
qed

lemma run_inv_step:
  assumes "run_inv g0 w0 c"
  shows "run_inv g0 w0 (call_step c call)"
proof (cases "closed (fst c)")
  case True
  then have "call_step c call = c"
    using call_step_closed [of "fst c" "snd c" call] by simp
  with assms show ?thesis by simp
next
  case False
  from assms False obtain evs where
    rid: "g_request_id (fst c) = g_request_id g0" and
    evs: "events (snd c) = events w0 @ evs" "filter is_exit_call evs = []"
    by (auto simp: run_inv_def)
  from call_step_open [OF False, of "snd c" call] obtain evs' where
    s: "g_request_id (fst (call_step c call)) = g_request_id (fst c)"
       "events (snd (call_step c call)) = events (snd c) @ evs'"
       "filter is_exit_call evs' =
          (if closed (fst (call_step c call)) then [ExitCall (g_request_id (fst c))] else [])"
    by auto
  show ?thesis
    unfolding run_inv_def
    using rid evs s by (intro conjI exI [of _ "evs @ evs'"]) auto
qed

lemma run_calls_snoc: "run_calls (calls @ [c]) st = call_step (run_calls calls st) c"
  by (simp add: run_calls_def)

lemma run_inv_run:
  "\<not> closed g0 \<Longrightarrow> run_inv g0 w0 (run_calls calls (g0, w0))"
proof (induction calls rule: rev_induct)
  case Nil
  then show ?case by (simp add: run_calls_def run_inv_def)
next
  case (snoc c calls)
  then show ?case by (simp add: run_calls_snoc run_inv_step)
qed

lemma run_exit_calls:
  assumes "\<not> closed g0"
  shows "filter is_exit_call (new_events w0 (snd (run_calls calls (g0, w0)))) =
           (if closed (fst (run_calls calls (g0, w0))) then [ExitCall (g_request_id g0)] else [])"
  using run_inv_run [OF assms, of w0 calls] by (auto simp: run_inv_def new_events_def)


text \<open>
  C3, amended: for every wrapped generator and every sequence of \<open>next\<close> and
  \<open>close\<close> calls on an open \<open>RateLimitGenerator\<close>, the calls of \<open>RateLimit.exit\<close>
  made so far are none while the wrapper is open and exactly one, for its request id,
  once it is closed; a closed wrapper answers \<open>next\<close> with \<open>StopIteration\<close> and
  \<open>close\<close> with nothing, leaving the wrapped generator and the world untouched. An
  open wrapper is closed by \<open>close\<close>, and by \<open>next\<close> exactly when what the wrapped
  generator raised is an instance of \<open>Exception\<close> (\<open>StopIteration\<close> on exhaustion
  included); \<open>next\<close> hands on what the generator yielded or raised.
\<close>

theorem release_exactly_once:
  assumes "\<not> closed g0"
  shows "(case run_calls calls (g0, w0) of (g, w) \<Rightarrow>
            filter is_exit_call (new_events w0 w) =
              (if closed g then [ExitCall (g_request_id g0)] else [])
            \<and> (closed g \<longrightarrow> next_item g w = (Inl StopIteration, g, w) \<and> close g w = (g, w))
            \<and> (\<not> closed g \<longrightarrow>
                 closed (fst (close g w))
                 \<and> fst (next_item g w) = fst (builtin_next (g_generator g) w)
                 \<and> closed (fst (snd (next_item g w))) =
                     (case fst (next_item g w) of
                        Inl e \<Rightarrow> isinstance_Exception e
                      | Inr v \<Rightarrow> False)))"
proof -
  obtain g w where r: "run_calls calls (g0, w0) = (g, w)"
    by (cases "run_calls calls (g0, w0)")
  have "closed g \<Longrightarrow> next_item g w = (Inl StopIteration, g, w) \<and> close g w = (g, w)"
    by (simp add: next_closed close_closed)
  moreover have "\<not> closed g \<Longrightarrow>
      closed (fst (close g w))
      \<and> fst (next_item g w) = fst (builtin_next (g_generator g) w)
      \<and> closed (fst (snd (next_item g w))) =
          (case fst (next_item g w) of Inl e \<Rightarrow> isinstance_Exception e | Inr v \<Rightarrow> False)"
    using close_open(1) [of g w] next_open(1,3) [of g w] by simp
  ultimately show ?thesis
    using run_exit_calls [OF assms, of w0 calls] by (simp add: r)
qed

theorem release_exactly_once_witness:
  "\<not> closed (example_wrapper [Yield ''a'', Yield ''b'', Yield ''c''])
   \<and> events (snd (run_calls [Next, Next, Next, Next, Next, Close]
        (example_wrapper [Yield ''a'', Yield ''b'', Yield ''c''], example_world (Some 2) [(''id1'', 9990)])))
       = [GeneratorNext, GeneratorNext, GeneratorNext, GeneratorNext, ExitCall ''id1'', GeneratorClose]
   \<and> events (snd (run_calls [Next, Close, Next, Close]
        (example_wrapper [Yield ''a'', Yield ''b'', Yield ''c''], example_world (Some 2) [(''id1'', 9990)])))
       = [GeneratorNext, ExitCall ''id1'', GeneratorClose]"
  using release_exactly_once [where ?g0.0 = "example_wrapper [Yield ''a'', Yield ''b'', Yield ''c'']"
      and calls = "[Next, Next, Next, Next, Next, Close]" and ?w0.0 = "example_world (Some 2) [(''id1'', 9990)]"]
  by (simp add: example_wrapper_def example_world_def example_limiter_def run_calls_def
      next_item_def close_def builtin_next_def generator_next_def generator_close_def
      exit_def redis_hdel_def UNLIMITED_REQUEST_ID_def active_requests_key_def Let_def)

text \<open>
  C3, as stated: the first terminal event, an exception raised during production
  included, causes exactly one call of \<open>exit\<close>, and every later \<open>next\<close> raises
  exhaustion without touching the wrapped generator. It fails for an exception that is
  not an instance of \<open>Exception\<close>: when the generator raises \<open>KeyboardInterrupt\<close>,
  \<open>except Exception\<close> does not catch it, no \<open>exit\<close> is called and the wrapper stays
  open; the next \<open>next\<close> calls the generator again, and only its \<open>StopIteration\<close>
  releases the ticket.
\<close>

theorem base_exception_leaves_wrapper_open:
  "fst (next_item (example_wrapper [Raise (BaseOnly ''KeyboardInterrupt'')])
          (example_world (Some 2) [(''id1'', 9990)])) = Inl (BaseOnly ''KeyboardInterrupt'')
   \<and> \<not> closed (fst (snd (next_item (example_wrapper [Raise (BaseOnly ''KeyboardInterrupt'')])
          (example_world (Some 2) [(''id1'', 9990)]))))
   \<and> events (snd (snd (next_item (example_wrapper [Raise (BaseOnly ''KeyboardInterrupt'')])
          (example_world (Some 2) [(''id1'', 9990)])))) = [GeneratorNext]
   \<and> events (snd (run_calls [Next, Next]
          (example_wrapper [Raise (BaseOnly ''KeyboardInterrupt'')], example_world (Some 2) [(''id1'', 9990)])))
       = [GeneratorNext, GeneratorNext, ExitCall ''id1'', GeneratorClose]"
  by (simp add: example_wrapper_def example_world_def example_limiter_def run_calls_def
      next_item_def close_def builtin_next_def generator_next_def generator_close_def
      exit_def redis_hdel_def UNLIMITED_REQUEST_ID_def active_requests_key_def Let_def)





subsection \<open>Controllers sharing the store\<close>

lemma enter_split:
  "enter request_id rl w =
     (case enter_admission request_id rl w of
        (Finished r, rl', w') \<Rightarrow> (r, rl', w')
      | (Admitted rid, rl', w') \<Rightarrow> enter_registration rid rl' w')"
  by (auto simp: enter_def enter_admission_def enter_registration_def Let_def split_beta
      split: sum.splits option.splits)

lemma controller_steps_enter:
  "controller_step (fst (controller_step (Calling request_id rl) w))
       (snd (controller_step (Calling request_id rl) w)) =
     (case enter request_id rl w of (r, rl', w') \<Rightarrow> (Returned r rl', w'))"
  by (auto simp: enter_split split: prod.splits enter_stage.splits)

lemma sequential_schedule_respects_limit:
  "run_schedule [0, 0, 1, 1]
     ([Calling None (example_limiter 1 9900), Calling None (example_limiter 1 9900)],
      example_world (Some 1) []) =
   (cs, w) \<Longrightarrow>
     length (filter admitted cs) = 1
     \<and> hashes w (active_requests_key (example_limiter 1 9900)) = [(''uuid-0'', 10001)]"
  by (auto simp: enter_admission_def enter_registration_def example_limiter_def example_world_def
        disabled_def flush_due_def ACTIVE_REQUESTS_COUNT_FLUSH_INTERVAL_def time_time_def
        gen_request_key_def redis_hlen_def redis_hset_def active_requests_key_def Let_def
        digit_char_def)

lemma length_update_new:
  "k \<notin> fst ` set h \<Longrightarrow> length (AList.update k v h) = Suc (length h)"
  by (induction h) auto

lemma update_fields: "fst ` set (AList.update k v h) = insert k (fst ` set h)"
  by (induction h) auto

text \<open>
  C8: the admission check and the registration inside \<open>enter\<close> are two round trips to
  the store, and another controller can run between them. Whenever one place is left
  under the limit and two controllers for the same client are each in a call of
  \<open>enter\<close> (no flush due, the ids they draw new and distinct), there is an
  interleaving, check, check, register, register, in which both are admitted and the
  hash ends with one ticket more than \<open>max_active_requests\<close>.
\<close>

theorem admission_race_exceeds_limit:
  assumes en: "0 < max_active_requests rl"
    and nd: "\<not> flush_due rl (clock w (ticks w))" "\<not> flush_due rl (clock w (Suc (ticks w)))"
    and slot: "int (length (hashes w (active_requests_key rl))) + 1 = max_active_requests rl"
    and ids: "uuid4 w (uuids w) \<noteq> uuid4 w (Suc (uuids w))"
      "uuid4 w (uuids w) \<notin> fst ` set (hashes w (active_requests_key rl))"
      "uuid4 w (Suc (uuids w)) \<notin> fst ` set (hashes w (active_requests_key rl))"
  shows "\<exists>sched.
     (case run_schedule sched ([Calling None rl, Calling None rl], w) of
        (cs, w') \<Rightarrow>
          cs = [Returned (Inr (uuid4 w (uuids w))) rl, Returned (Inr (uuid4 w (Suc (uuids w)))) rl]
          \<and> length (filter admitted cs) = 2
          \<and> int (length (hashes w' (active_requests_key rl))) = max_active_requests rl + 1)"
proof -
  have d: "\<not> disabled rl" using en by (simp add: disabled_def)
  have lt: "int (length (hashes w (active_requests_key rl))) < max_active_requests rl"
    using slot by linarith
  show ?thesis
    apply (rule exI [of _ "[0, 1, 0, 1]"])
    using d nd lt slot ids
    apply (simp add: enter_admission_def enter_registration_def time_time_def
        gen_request_key_def redis_hlen_def redis_hset_def Let_def length_update_new update_fields)
    done
qed


theorem admission_race_exceeds_limit_witness:
  "0 < max_active_requests (example_limiter 1 9900)
   \<and> (\<exists>sched.
        (case run_schedule sched
                ([Calling None (example_limiter 1 9900), Calling None (example_limiter 1 9900)],
                 example_world (Some 1) []) of
           (cs, w') \<Rightarrow>
             cs = [Returned (Inr ''uuid-0'') (example_limiter 1 9900),
                   Returned (Inr ''uuid-1'') (example_limiter 1 9900)]
             \<and> length (filter admitted cs) = 2
             \<and> int (length (hashes w' (active_requests_key (example_limiter 1 9900)))) = 2))"
  using admission_race_exceeds_limit [of "example_limiter 1 9900" "example_world (Some 1) []"]
  by (simp add: example_limiter_def example_world_def flush_due_def
      ACTIVE_REQUESTS_COUNT_FLUSH_INTERVAL_def active_requests_key_def digit_char_def)

end
